theory Spec2Isabelle
  imports Main "HOL-Library.Word"
begin

section \<open>Strings of the script\<close>

text \<open>
  A string is a list of code units. The eight-bit \<^typ>\<open>char\<close> stands for the code units
  \<open>0x00\<close> to \<open>0xFF\<close> (Basic Latin and Latin-1 Supplement); on these \<open>toLowerCase\<close> works
  unit by unit: \<open>A\<close>-\<open>Z\<close>, \<open>0xC0\<close>-\<open>0xD6\<close> and \<open>0xD8\<close>-\<open>0xDE\<close> move up by \<open>0x20\<close>, every other unit
  stays. Code units from \<open>0x100\<close> on are outside the model.
\<close>

definition toLowerCase_unit :: "char \<Rightarrow> char" where
  "toLowerCase_unit c =
     (let n = (of_char c :: int)
      in if (65 \<le> n \<and> n \<le> 90) \<or> (192 \<le> n \<and> n \<le> 214) \<or> (216 \<le> n \<and> n \<le> 222)
         then char_of (n + 32) else c)"

definition toLowerCase :: "string \<Rightarrow> string" where
  "toLowerCase s = map toLowerCase_unit s"

text \<open>\<open>hay.startsWith(needle)\<close> and \<open>hay.includes(needle)\<close>, by exact comparison of code units.\<close>

fun startsWith :: "string \<Rightarrow> string \<Rightarrow> bool" where
  "startsWith hay [] = True"
| "startsWith [] (n # ns) = False"
| "startsWith (h # hs) (n # ns) = (h = n \<and> startsWith hs ns)"

fun includes_str :: "string \<Rightarrow> string \<Rightarrow> bool" where
  "includes_str [] needle = (needle = [])"
| "includes_str (h # hs) needle = (startsWith (h # hs) needle \<or> includes_str hs needle)"

section \<open>JSON values and \<open>JSON.stringify\<close>\<close>

text \<open>
  The data that \<open>JSON.parse\<close> can give. \<open>JNum\<close> holds an integer from \<open>-2^53\<close> to \<open>2^53 - 1\<close>, as
  a word of 54 bits read in two's complement by \<open>sint\<close>: each of these is a number of the
  runtime and is printed with all its decimal digits. Other numbers (fractions, larger
  magnitudes, which the runtime prints rounded or with an exponent) are outside the model.
  \<open>JObj\<close> lists the properties of an object in their enumeration order, each key once.
\<close>

datatype json =
    JNull
  | JBool bool
  | JNum "54 word"
  | JStr string
  | JArr "json list"
  | JObj "(string \<times> json) list"

text \<open>The digit \<open>d\<close> below sixteen, in lower-case hexadecimal.\<close>

definition digit_char :: "int \<Rightarrow> char" where
  "digit_char d = (if d < 10 then char_of (48 + d) else char_of (87 + d))"

text \<open>The decimal digits of a number that is not negative.\<close>

function show_digits :: "int \<Rightarrow> string" where
  "show_digits n =
     (if n < 10 then [digit_char n] else show_digits (n div 10) @ [digit_char (n mod 10)])"
  by pat_completeness auto
termination
  by (relation "measure nat") auto

text \<open>The number held by \<open>JNum\<close>, as the runtime prints it.\<close>

definition show_int :: "54 word \<Rightarrow> string" where
  "show_int k =
     (if sint k < 0 then CHR ''-'' # show_digits (- sint k) else show_digits (sint k))"

text \<open>
  \<open>QuoteJSONString\<close>: the quotation mark and the backslash are escaped with a backslash, the
  control characters below \<open>0x20\<close> by their short form or by \<open>\u00XX\<close> in lower-case hexadecimal.
\<close>

definition quote_unit :: "char \<Rightarrow> string" where
  "quote_unit c =
     (let n = (of_char c :: int)
      in if n = 34 then [CHR 0x5C, CHR 0x22]
         else if n = 92 then [CHR 0x5C, CHR 0x5C]
         else if n = 8 then [CHR 0x5C, CHR ''b'']
         else if n = 9 then [CHR 0x5C, CHR ''t'']
         else if n = 10 then [CHR 0x5C, CHR ''n'']
         else if n = 12 then [CHR 0x5C, CHR ''f'']
         else if n = 13 then [CHR 0x5C, CHR ''r'']
         else if n < 32 then [CHR 0x5C, CHR ''u'', CHR ''0'', CHR ''0'',
                             digit_char (n div 16), digit_char (n mod 16)]
         else [c])"

definition quote :: "string \<Rightarrow> string" where
  "quote s = CHR 0x22 # concat (map quote_unit s) @ [CHR 0x22]"

fun join_comma :: "string list \<Rightarrow> string" where
  "join_comma [] = []"
| "join_comma [x] = x"
| "join_comma (x # y # ys) = x @ CHR '','' # join_comma (y # ys)"

fun JSON_stringify :: "json \<Rightarrow> string" where
  "JSON_stringify JNull = ''null''"
| "JSON_stringify (JBool b) = (if b then ''true'' else ''false'')"
| "JSON_stringify (JNum k) = show_int k"
| "JSON_stringify (JStr s) = quote s"
| "JSON_stringify (JArr xs) = CHR ''['' # join_comma (map JSON_stringify xs) @ '']''"
| "JSON_stringify (JObj kvs) =
     CHR ''{'' # join_comma (map (\<lambda>kv. quote (fst kv) @ CHR '':'' # JSON_stringify (snd kv)) kvs) @ ''}''"

text \<open>The values that \<open>||\<close> skips: \<open>null\<close>, \<open>false\<close>, \<open>0\<close> and the empty string.\<close>

fun falsy :: "json \<Rightarrow> bool" where
  "falsy JNull = True"
| "falsy (JBool b) = (\<not> b)"
| "falsy (JNum k) = (k = 0)"
| "falsy (JStr s) = (s = [])"
| "falsy (JArr xs) = False"
| "falsy (JObj kvs) = False"

section \<open>Errors raised by the chain client\<close>

text \<open>
  The value bound by \<open>catch (error: any)\<close>, as far as the script reads it. \<open>message\<close> is
  \<open>error?.message\<close>: \<open>None\<close> when it is \<open>undefined\<close> or \<open>null\<close> (or the thrown value itself is),
  \<open>Text\<close> when it is a string, and \<open>NotText\<close> when it is any other value (a number, a boolean,
  an object), on which \<open>toLowerCase\<close> is not a function. \<open>details\<close> is \<open>error?.details\<close>: \<open>None\<close>
  when it is \<open>undefined\<close> (or another value outside JSON that \<open>||\<close> skips), \<open>Data\<close> when it is
  JSON data, and \<open>Unserialisable\<close> when it is a value that \<open>||\<close> keeps and for which
  \<open>JSON.stringify\<close> raises or gives \<open>undefined\<close> (a BigInt other than zero, a function, an
  object that holds a BigInt or a reference to itself).
\<close>

datatype message_value = Text string | NotText

datatype details_value = Data json | Unserialisable

record js_error =
  message :: "message_value option"
  details :: "details_value option"

text \<open>
  What can reach the handler of \<open>main\<close>: an error that the chain client raised, or the
  \<open>TypeError\<close> that the runtime raises inside the \<open>catch\<close> block.
\<close>

datatype thrown = Rejection js_error | TypeError

text \<open>\<open>error?.message?.toLowerCase() || ""\<close>; \<open>None\<close> when the call raises a \<open>TypeError\<close>.\<close>

definition errorMessage :: "js_error \<Rightarrow> string option" where
  "errorMessage e =
     (case message e of
        None \<Rightarrow> Some []
      | Some (Text m) \<Rightarrow> Some (toLowerCase m)
      | Some NotText \<Rightarrow> None)"

text \<open>
  \<open>JSON.stringify(error?.details || {}).toLowerCase()\<close>; \<open>None\<close> when it raises a \<open>TypeError\<close>.
\<close>

definition errorDetails :: "js_error \<Rightarrow> string option" where
  "errorDetails e =
     (case details e of
        None \<Rightarrow> Some (toLowerCase (JSON_stringify (JObj [])))
      | Some (Data d) \<Rightarrow> Some (toLowerCase (JSON_stringify (if falsy d then JObj [] else d)))
      | Some Unserialisable \<Rightarrow> None)"

text \<open>The condition of the \<open>if\<close> in the \<open>catch\<close> block, on its two local strings.\<close>

definition isBlockOutOfRange :: "string \<Rightarrow> string \<Rightarrow> bool" where
  "isBlockOutOfRange em ed =
     (includes_str em ''block is out of range'' \<or>
      includes_str ed ''block is out of range'' \<or>
      includes_str ed ''-32019'')"

section \<open>The run and what it does to the outside\<close>

type_synonym address = string
type_synonym hash = string

record receipt =
  status :: string

record results =
  total :: nat
  successful :: nat
  failed :: nat
  blockOutOfRangeErrors :: nat
  otherErrors :: nat

text \<open>
  The lines that \<open>main\<close> prints, one constructor for each template in the source; the values
  that the template is filled with are its arguments (\<open>i\<close> and \<open>numSends\<close> first, where the
  line has them; the counter and \<open>results.total\<close> for the two lines with a percentage).
  The lines that the logging transport adds for the requests of the chain client are not
  among them.
\<close>

datatype line =
    PrivateKeyRequired
  | Usage
  | AccountLine address
  | RpcUrlLine string
  | BlankLine
  | BalanceLine int
  | StartingLine nat
  | SendingLine nat nat
  | WaitingLine nat nat hash
  | SuccessLine nat nat
  | FailedStatusLine nat nat
  | FailedBlockOutOfRangeLine nat nat
  | FailedOtherLine nat nat string
  | ErrorDetailsLine nat nat js_error
  | ResultsHeader
  | TotalLine nat
  | SuccessfulLine nat nat
  | FailedLine nat nat
  | BlockOutOfRangeLine nat
  | OtherErrorsLine nat
  | Uncaught thrown

datatype request =
    GetBalance address
  | SendTransaction address int
  | WaitForTransactionReceipt hash

datatype effect =
    ConsoleLog line
  | ConsoleError line
  | Request request
  | SetTimeout int

text \<open>
  What the outside answers: the account of a key (or the error of a malformed key), the
  balance, and for the iteration \<open>i\<close> the answers of \<open>sendTransaction\<close> and of
  \<open>waitForTransactionReceipt\<close>: \<open>Inl\<close> is a raised error, \<open>Inr\<close> a returned value.
\<close>

record world =
  privateKeyToAccount :: "string \<Rightarrow> js_error + address"
  getBalance :: "address \<Rightarrow> js_error + int"
  sendTransaction :: "nat \<Rightarrow> js_error + hash"
  waitForTransactionReceipt :: "nat \<Rightarrow> hash \<Rightarrow> js_error + receipt"

text \<open>\<open>parseEther("0.001")\<close>\<close>

definition transferValue :: int where
  "transferValue = 1000000000000000"

text \<open>
  The \<open>try\<close> block of one iteration: the error it raises or the tally it leaves, with what it
  printed and requested up to there.
\<close>

definition try_block ::
  "world \<Rightarrow> address \<Rightarrow> nat \<Rightarrow> nat \<Rightarrow> results \<Rightarrow> (js_error + results) \<times> effect list" where
  "try_block w account numSends i r =
     (let out1 = [ConsoleLog (SendingLine i numSends),
                  Request (SendTransaction account transferValue)]
      in case sendTransaction w i of
           Inl e \<Rightarrow> (Inl e, out1)
         | Inr h \<Rightarrow>
             (let out2 = out1 @ [ConsoleLog (WaitingLine i numSends h),
                                 Request (WaitForTransactionReceipt h)]
              in case waitForTransactionReceipt w i h of
                   Inl e \<Rightarrow> (Inl e, out2)
                 | Inr rc \<Rightarrow>
                     if status rc = ''success''
                     then (Inr (r\<lparr>successful := successful r + 1\<rparr>),
                           out2 @ [ConsoleLog (SuccessLine i numSends)])
                     else (Inr (r\<lparr>failed := failed r + 1\<rparr>),
                           out2 @ [ConsoleLog (FailedStatusLine i numSends)])))"

text \<open>
  The \<open>catch\<close> block: \<open>Inl\<close> when computing one of its two strings raises, before anything
  is printed; otherwise the tally it leaves and its two lines.
\<close>

definition catch_block ::
  "nat \<Rightarrow> nat \<Rightarrow> js_error \<Rightarrow> results \<Rightarrow> thrown + results \<times> effect list" where
  "catch_block numSends i e r =
     (let r1 = r\<lparr>failed := failed r + 1\<rparr>
      in case errorMessage e of
           None \<Rightarrow> Inl TypeError
         | Some em \<Rightarrow>
             (case errorDetails e of
                None \<Rightarrow> Inl TypeError
              | Some ed \<Rightarrow>
                  if isBlockOutOfRange em ed
                  then Inr (r1\<lparr>blockOutOfRangeErrors := blockOutOfRangeErrors r1 + 1\<rparr>,
                            [ConsoleLog (FailedBlockOutOfRangeLine i numSends),
                             ConsoleError (ErrorDetailsLine i numSends e)])
                  else Inr (r1\<lparr>otherErrors := otherErrors r1 + 1\<rparr>,
                            [ConsoleLog (FailedOtherLine i numSends em),
                             ConsoleError (ErrorDetailsLine i numSends e)])))"

text \<open>
  The body of the \<open>for\<close> loop with its increment, on the loop variable \<open>i\<close>, the tally and
  the effects so far: \<open>Inr\<close> is the state after the pass, \<open>Inl\<close> what the \<open>catch\<close> block raised
  and the effects up to there.
\<close>

definition loop_body ::
  "world \<Rightarrow> address \<Rightarrow> nat \<Rightarrow> nat \<times> results \<times> effect list \<Rightarrow>
   thrown \<times> effect list + nat \<times> results \<times> effect list" where
  "loop_body w account numSends s =
     (case s of (i, r, out) \<Rightarrow>
        (let pause = (if i < numSends then [SetTimeout 500] else [])
         in case try_block w account numSends i r of
              (Inr r1, out1) \<Rightarrow> Inr (i + 1, r1, out @ out1 @ pause)
            | (Inl e, out1) \<Rightarrow>
                (case catch_block numSends i e r of
                   Inl t \<Rightarrow> Inl (t, out @ out1)
                 | Inr (r', out2) \<Rightarrow> Inr (i + 1, r', out @ out1 @ out2 @ pause))))"

function send_loop ::
  "world \<Rightarrow> address \<Rightarrow> nat \<Rightarrow> nat \<times> results \<times> effect list \<Rightarrow>
   thrown \<times> effect list + nat \<times> results \<times> effect list" where
  "send_loop w account numSends (i, r, out) =
     (if i \<le> numSends
      then (case loop_body w account numSends (i, r, out) of
              Inl t \<Rightarrow> Inl t
            | Inr s \<Rightarrow> send_loop w account numSends s)
      else Inr (i, r, out))"
  by pat_completeness auto
termination
proof (relation "measure (\<lambda>(w, account, numSends, s). Suc numSends - fst s)")
  show "wf (measure (\<lambda>(w, account, numSends, s). Suc numSends - fst s))"
    by simp
next
  fix w :: world and account :: address and numSends i :: nat and r :: results
    and out :: "effect list" and s :: "nat \<times> results \<times> effect list"
  assume "i \<le> numSends" and "loop_body w account numSends (i, r, out) = Inr s"
  then show "((w, account, numSends, s), (w, account, numSends, i, r, out))
             \<in> measure (\<lambda>(w, account, numSends, s). Suc numSends - fst s)"
    by (auto simp: loop_body_def Let_def split: prod.splits sum.splits)
qed

text \<open>The six lines after the loop.\<close>

definition report :: "results \<Rightarrow> effect list" where
  "report r =
     [ConsoleLog ResultsHeader,
      ConsoleLog (TotalLine (total r)),
      ConsoleLog (SuccessfulLine (successful r) (total r)),
      ConsoleLog (FailedLine (failed r) (total r)),
      ConsoleLog (BlockOutOfRangeLine (blockOutOfRangeErrors r)),
      ConsoleLog (OtherErrorsLine (otherErrors r))]"

text \<open>
  \<open>main\<close> from the declaration of \<open>results\<close> to its end, for a number of sends \<open>numSends\<close>:
  \<open>Inr\<close> is the final tally with everything printed and requested, \<open>Inl\<close> what was raised out
  of the loop and the effects up to there.
\<close>

definition run_sends ::
  "world \<Rightarrow> address \<Rightarrow> nat \<Rightarrow> thrown \<times> effect list + results \<times> effect list" where
  "run_sends w account numSends =
     (let results0 = \<lparr>total = numSends, successful = 0, failed = 0,
                      blockOutOfRangeErrors = 0, otherErrors = 0\<rparr>
      in case send_loop w account numSends (1, results0, [ConsoleLog (StartingLine numSends)]) of
           Inl t \<Rightarrow> Inl t
         | Inr (i, r, out) \<Rightarrow> Inr (r, out @ report r))"

definition numSends :: nat where
  "numSends = 100"

record environment =
  PRIVATE_KEY :: "string option"
  RPC_URL :: "string option"

record run =
  exit_status :: nat
  effects :: "effect list"
  summary :: "results option"

text \<open>\<open>process.env.RPC_URL || "https://forno.celo.org"\<close>\<close>

definition rpcUrl :: "environment \<Rightarrow> string" where
  "rpcUrl env =
     (case RPC_URL env of
        None \<Rightarrow> ''https://forno.celo.org''
      | Some u \<Rightarrow> if u = [] then ''https://forno.celo.org'' else u)"

text \<open>
  The whole process: \<open>main\<close> with the handler of its rejection. An environment variable that
  is unset is \<open>None\<close>; an empty one is as good as unset for \<open>!privateKey\<close> and for \<open>||\<close>.
\<close>

definition main :: "environment \<Rightarrow> world \<Rightarrow> run" where
  "main env w =
     (case PRIVATE_KEY env of
        None \<Rightarrow>
          \<lparr>exit_status = 1,
           effects = [ConsoleError PrivateKeyRequired, ConsoleError Usage],
           summary = None\<rparr>
      | Some privateKey \<Rightarrow>
          if privateKey = []
          then \<lparr>exit_status = 1,
                effects = [ConsoleError PrivateKeyRequired, ConsoleError Usage],
                summary = None\<rparr>
          else
            (case privateKeyToAccount w privateKey of
               Inl e \<Rightarrow>
                 \<lparr>exit_status = 1, effects = [ConsoleError (Uncaught (Rejection e))],
                  summary = None\<rparr>
             | Inr account \<Rightarrow>
                 (let out = [ConsoleLog (AccountLine account), ConsoleLog (RpcUrlLine (rpcUrl env)),
                             ConsoleLog BlankLine, Request (GetBalance account)]
                  in case getBalance w account of
                       Inl e \<Rightarrow>
                         \<lparr>exit_status = 1,
                          effects = out @ [ConsoleError (Uncaught (Rejection e))],
                          summary = None\<rparr>
                     | Inr balance \<Rightarrow>
                         (case run_sends w account numSends of
                            Inl (t, out') \<Rightarrow>
                              \<lparr>exit_status = 1,
                               effects = out @ ConsoleLog (BalanceLine balance) # out'
                                           @ [ConsoleError (Uncaught t)],
                               summary = None\<rparr>
                          | Inr (r, out') \<Rightarrow>
                              \<lparr>exit_status = 0,
                               effects = out @ ConsoleLog (BalanceLine balance) # out',
                               summary = Some r\<rparr>))))"

section \<open>What happens in an iteration\<close>

text \<open>
  The ways through the body of the loop: the receipt says \<open>success\<close>, the receipt says
  something else, an error was caught and the condition of the \<open>catch\<close> block holds, an error
  was caught and it does not, an error was caught and the \<open>catch\<close> block raises while it
  computes its two strings.
\<close>

datatype branch =
  ReceiptSuccess | ReceiptNotSuccess | CaughtBlockOutOfRange | CaughtOther | CatchBlockRaises

text \<open>What the \<open>try\<close> block of the iteration \<open>i\<close> comes to: a raised error or a receipt.\<close>

datatype attempt = Raised js_error | Obtained receipt

definition attempt :: "world \<Rightarrow> nat \<Rightarrow> attempt" where
  "attempt w i =
     (case sendTransaction w i of
        Inl e \<Rightarrow> Raised e
      | Inr h \<Rightarrow>
          (case waitForTransactionReceipt w i h of Inl e \<Rightarrow> Raised e | Inr rc \<Rightarrow> Obtained rc))"


definition obtained :: "world \<Rightarrow> nat \<Rightarrow> receipt option" where
  "obtained w i = (case attempt w i of Raised e \<Rightarrow> None | Obtained rc \<Rightarrow> Some rc)"

text \<open>
  An error that the \<open>catch\<close> block can classify: its message is absent or a string, and its
  details are absent or JSON data.
\<close>

definition classifiable :: "js_error \<Rightarrow> bool" where
  "classifiable e = (message e \<noteq> Some NotText \<and> details e \<noteq> Some Unserialisable)"

definition error_branch :: "js_error \<Rightarrow> branch" where
  "error_branch e =
     (case errorMessage e of
        None \<Rightarrow> CatchBlockRaises
      | Some em \<Rightarrow>
          (case errorDetails e of
             None \<Rightarrow> CatchBlockRaises
           | Some ed \<Rightarrow> if isBlockOutOfRange em ed then CaughtBlockOutOfRange else CaughtOther))"

definition branch_of :: "world \<Rightarrow> nat \<Rightarrow> branch" where
  "branch_of w i =
     (case attempt w i of
        Raised e \<Rightarrow> error_branch e
      | Obtained rc \<Rightarrow> if status rc = ''success'' then ReceiptSuccess else ReceiptNotSuccess)"

text \<open>
  What each way through the body has done to the counters (for the last, at the point
  where the \<open>catch\<close> block raises).
\<close>

fun tally :: "branch \<Rightarrow> results \<Rightarrow> results" where
  "tally ReceiptSuccess r = r\<lparr>successful := successful r + 1\<rparr>"
| "tally ReceiptNotSuccess r = r\<lparr>failed := failed r + 1\<rparr>"
| "tally CaughtBlockOutOfRange r =
     r\<lparr>failed := failed r + 1, blockOutOfRangeErrors := blockOutOfRangeErrors r + 1\<rparr>"
| "tally CaughtOther r = r\<lparr>failed := failed r + 1, otherErrors := otherErrors r + 1\<rparr>"
| "tally CatchBlockRaises r = r\<lparr>failed := failed r + 1\<rparr>"

text \<open>How many of the iterations \<open>1\<close> to \<open>k\<close> go a given way, and how many raise an error.\<close>

definition count_branch :: "world \<Rightarrow> branch \<Rightarrow> nat \<Rightarrow> nat" where
  "count_branch w b k = length (filter (\<lambda>j. branch_of w j = b) [1..<Suc k])"


text \<open>The tally after the iterations \<open>js\<close>, one after the other.\<close>

definition tallies :: "world \<Rightarrow> results \<Rightarrow> nat list \<Rightarrow> results" where
  "tallies w r js = foldl (\<lambda>r j. tally (branch_of w j) r) r js"

definition no_results :: results where
  "no_results = \<lparr>total = 0, successful = 0, failed = 0, blockOutOfRangeErrors = 0, otherErrors = 0\<rparr>"

text \<open>What a result of the loop, or of the run, has printed and requested.\<close>

fun effects_of :: "thrown \<times> effect list + 'a \<times> effect list \<Rightarrow> effect list" where
  "effects_of (Inl (t, out)) = out"
| "effects_of (Inr (x, out)) = out"

text \<open>The final tally of a run, when it has one.\<close>

fun summary_of :: "thrown \<times> effect list + results \<times> effect list \<Rightarrow> results option" where
  "summary_of (Inl t) = None"
| "summary_of (Inr (r, out)) = Some r"

text \<open>What the iteration \<open>i\<close> prints and requests, and its pause.\<close>

definition iteration_effects :: "world \<Rightarrow> address \<Rightarrow> nat \<Rightarrow> nat \<Rightarrow> effect list" where
  "iteration_effects w account n i =
     (case loop_body w account n (i, no_results, []) of
        Inl (t, out) \<Rightarrow> out
      | Inr (i', r, out) \<Rightarrow> out)"

text \<open>
  The state in which the loop starts, and the state after \<open>k\<close> passes through its body
  (\<open>Inl\<close> when one of them has raised).
\<close>

definition initial_state :: "nat \<Rightarrow> nat \<times> results \<times> effect list" where
  "initial_state n =
     (1, \<lparr>total = n, successful = 0, failed = 0, blockOutOfRangeErrors = 0, otherErrors = 0\<rparr>,
      [ConsoleLog (StartingLine n)])"

fun after_iterations ::
  "world \<Rightarrow> address \<Rightarrow> nat \<Rightarrow> nat \<Rightarrow> thrown \<times> effect list + nat \<times> results \<times> effect list" where
  "after_iterations w account n 0 = Inr (initial_state n)"
| "after_iterations w account n (Suc k) =
     (case after_iterations w account n k of
        Inl t \<Rightarrow> Inl t
      | Inr s \<Rightarrow> loop_body w account n s)"



fun is_request :: "effect \<Rightarrow> bool" where
  "is_request (Request rq) = True"
| "is_request e = False"

section \<open>Containing a substring in any letter case\<close>

text \<open>
  \<open>needle\<close> occurs in \<open>hay\<close> when letters that differ only in their case count as equal.
\<close>

fun startsWith_any_case :: "string \<Rightarrow> string \<Rightarrow> bool" where
  "startsWith_any_case hay [] = True"
| "startsWith_any_case [] (n # ns) = False"
| "startsWith_any_case (h # hs) (n # ns) =
     (toLowerCase_unit h = toLowerCase_unit n \<and> startsWith_any_case hs ns)"

fun contains_any_case :: "string \<Rightarrow> string \<Rightarrow> bool" where
  "contains_any_case [] needle = (needle = [])"
| "contains_any_case (h # hs) needle =
     (startsWith_any_case (h # hs) needle \<or> contains_any_case hs needle)"

section \<open>The outcome of an iteration in the words of the specification\<close>

datatype IterationOutcome = Success | FailureBlockOutOfRange | FailureOther string

text \<open>
  A receipt with success status is \<open>Success\<close>; a receipt with another status is \<open>FailureOther\<close>
  with a fixed message; a raised error whose message or details match is
  \<open>FailureBlockOutOfRange\<close>, and any other raised error is \<open>FailureOther\<close> with the lower-cased
  message of the error.
\<close>

definition spec_outcome :: "world \<Rightarrow> nat \<Rightarrow> IterationOutcome" where
  "spec_outcome w i =
     (case attempt w i of
        Raised e \<Rightarrow>
          (case (errorMessage e, errorDetails e) of
             (Some em, Some ed) \<Rightarrow>
               if isBlockOutOfRange em ed then FailureBlockOutOfRange else FailureOther em
           | (Some em, None) \<Rightarrow> FailureOther em
           | (None, x) \<Rightarrow> FailureOther [])
      | Obtained rc \<Rightarrow> if status rc = ''success'' then Success
                        else FailureOther ''tx status not success'')"

section \<open>Some runs\<close>

definition alice :: address where
  "alice = ''0x6AD01Ac6841b67f27DC1A039FefBF5804003d6a4''"

text \<open>Every transaction goes through.\<close>

definition steady_world :: world where
  "steady_world =
     \<lparr>privateKeyToAccount = (\<lambda>k. Inr alice),
      getBalance = (\<lambda>a. Inr 5000000000000000000),
      sendTransaction = (\<lambda>i. Inr ''0x8a16''),
      waitForTransactionReceipt = (\<lambda>i h. Inr \<lparr>status = ''success''\<rparr>)\<rparr>"

text \<open>Every transaction is mined and reverts.\<close>

definition reverting_world :: world where
  "reverting_world =
     steady_world\<lparr>waitForTransactionReceipt := (\<lambda>i h. Inr \<lparr>status = ''reverted''\<rparr>)\<rparr>"

text \<open>The error of the endpoint that the script looks for, and some others.\<close>

definition out_of_range_error :: js_error where
  "out_of_range_error =
     \<lparr>message = Some (Text ''HTTP request failed.''),
      details = Some (Data (JObj [(''code'', JNum (- 32019)),
                                  (''message'', JStr ''block is out of range'')]))\<rparr>"

definition upper_case_error :: js_error where
  "upper_case_error = \<lparr>message = Some (Text ''Block Is Out Of Range''), details = None\<rparr>"

definition nonce_error :: js_error where
  "nonce_error =
     \<lparr>message = Some (Text ''Nonce too low''), details = Some (Data (JStr ''nonce too low''))\<rparr>"

definition code_in_message_error :: js_error where
  "code_in_message_error =
     \<lparr>message = Some (Text ''RPC request failed with code -32019''), details = None\<rparr>"




text \<open>Every submission raises the given error.\<close>

definition failing_world :: "js_error \<Rightarrow> world" where
  "failing_world e = steady_world\<lparr>sendTransaction := (\<lambda>i. Inl e)\<rparr>"

text \<open>
  Four iterations: a success, the error of the endpoint while waiting, a third iteration
  that is either a raised error or a reverted transaction, and a success.
\<close>

definition scripted_error_world :: world where
  "scripted_error_world =
     steady_world
       \<lparr>sendTransaction := (\<lambda>i. if i = 3 then Inl nonce_error else Inr ''0x8a16''),
        waitForTransactionReceipt :=
          (\<lambda>i h. if i = 2 then Inl out_of_range_error else Inr \<lparr>status = ''success''\<rparr>)\<rparr>"

definition scripted_revert_world :: world where
  "scripted_revert_world =
     steady_world
       \<lparr>waitForTransactionReceipt :=
          (\<lambda>i h. if i = 2 then Inl out_of_range_error
                  else if i = 3 then Inr \<lparr>status = ''reverted''\<rparr>
                  else Inr \<lparr>status = ''success''\<rparr>)\<rparr>"


section \<open>The logging of the requests\<close>














text \<open>
  The body of a request as \<open>onFetchRequest\<close> of the other version reads it: absent, a text
  that cannot be read as a JSON object, or a JSON-RPC request with its method (a string, when
  there is one) and its parameters (an array, when there are any).
\<close>

datatype request_body = NoBody | NotJson | RpcBody "string option" "json list option"












section \<open>Lemmas on strings\<close>

lemma startsWith_map:
  "startsWith hay needle \<Longrightarrow> startsWith (map f hay) (map f needle)"
  by (induction hay needle rule: startsWith.induct) auto

lemma includes_str_map:
  "includes_str hay needle \<Longrightarrow> includes_str (map f hay) (map f needle)"
  by (induction hay) (auto dest: startsWith_map [where f = f])

lemma startsWith_any_case_lower:
  "startsWith_any_case hay needle \<Longrightarrow> startsWith (toLowerCase hay) (toLowerCase needle)"
  by (induction hay needle rule: startsWith_any_case.induct) (auto simp: toLowerCase_def)

lemma contains_any_case_lower:
  "contains_any_case hay needle \<Longrightarrow> includes_str (toLowerCase hay) (toLowerCase needle)"
proof (induction hay)
  case Nil
  then show ?case by (simp add: toLowerCase_def)
next
  case (Cons h hs)
  then show ?case
    using startsWith_any_case_lower [of "h # hs" needle]
    by (auto simp: toLowerCase_def)
qed

lemma lower_needle_block: "toLowerCase ''block is out of range'' = ''block is out of range''"
  by code_simp

lemma lower_needle_code: "toLowerCase ''-32019'' = ''-32019''"
  by code_simp

lemma includes_lower_code:
  "includes_str s ''-32019'' \<Longrightarrow> includes_str (toLowerCase s) ''-32019''"
  using includes_str_map [of s "''-32019''" toLowerCase_unit] lower_needle_code
  by (simp add: toLowerCase_def)

lemma contains_lower_block:
  "contains_any_case s ''block is out of range'' \<Longrightarrow>
   includes_str (toLowerCase s) ''block is out of range''"
  using contains_any_case_lower [of s "''block is out of range''"] lower_needle_block
  by simp

lemma show_int_0: "show_int 0 = ''0''"
  by code_simp

lemma quote_Nil: "quote [] = [CHR 0x22, CHR 0x22]"
  by code_simp

lemma falsy_stringify:
  "falsy d \<Longrightarrow> JSON_stringify d \<in> {''null'', ''false'', ''0'', [CHR 0x22, CHR 0x22]}"
  by (cases d) (auto simp: show_int_0 quote_Nil)

lemma falsy_no_code: "falsy d \<Longrightarrow> \<not> includes_str (JSON_stringify d) ''-32019''"
  using falsy_stringify [of d] by auto

lemma falsy_no_block:
  "falsy d \<Longrightarrow> \<not> contains_any_case (JSON_stringify d) ''block is out of range''"
  using falsy_stringify [of d] by auto

lemma empty_object_text: "toLowerCase (JSON_stringify (JObj [])) = ''{}''"
  by code_simp

section \<open>Lemmas on the classification\<close>

lemma classifiable_iff:
  "classifiable e \<longleftrightarrow> (\<exists>em ed. errorMessage e = Some em \<and> errorDetails e = Some ed)"
  by (auto simp: classifiable_def errorMessage_def errorDetails_def
        split: option.splits message_value.splits details_value.splits)









section \<open>Lemmas on the loop\<close>

lemma loop_body_eq:
  "loop_body w a n (i, r, out) =
     (if branch_of w i = CatchBlockRaises
      then Inl (TypeError, out @ iteration_effects w a n i)
      else Inr (Suc i, tally (branch_of w i) r, out @ iteration_effects w a n i))"
  by (auto simp: loop_body_def try_block_def catch_block_def branch_of_def attempt_def
        error_branch_def iteration_effects_def Let_def split: sum.splits option.splits)

lemma tallies_snoc: "tallies w r (js @ [j]) = tally (branch_of w j) (tallies w r js)"
  by (simp add: tallies_def)

lemma after_iterations_Inr:
  "after_iterations w a n k = Inr s \<Longrightarrow>
   s = (Suc k, tallies w (fst (snd (initial_state n))) [1..<Suc k],
        ConsoleLog (StartingLine n) # concat (map (iteration_effects w a n) [1..<Suc k])) \<and>
   (\<forall>j. 1 \<le> j \<and> j \<le> k \<longrightarrow> branch_of w j \<noteq> CatchBlockRaises)"
proof (induction k arbitrary: s)
  case 0
  then show ?case by (auto simp: initial_state_def tallies_def)
next
  case (Suc k)
  from Suc.prems obtain s0 where s0: "after_iterations w a n k = Inr s0"
    and body: "loop_body w a n s0 = Inr s"
    by (auto split: sum.splits)
  note ih = Suc.IH [OF s0]
  from ih have s0_eq: "s0 = (Suc k, tallies w (fst (snd (initial_state n))) [1..<Suc k],
        ConsoleLog (StartingLine n) # concat (map (iteration_effects w a n) [1..<Suc k]))"
    by simp
  from body have nr: "branch_of w (Suc k) \<noteq> CatchBlockRaises"
    unfolding s0_eq loop_body_eq by (auto split: if_splits)
  have "s = (Suc (Suc k), tallies w (fst (snd (initial_state n))) [1..<Suc (Suc k)],
        ConsoleLog (StartingLine n) # concat (map (iteration_effects w a n) [1..<Suc (Suc k)]))"
    using body nr unfolding s0_eq loop_body_eq by (simp add: tallies_def)
  moreover have "\<forall>j. 1 \<le> j \<and> j \<le> Suc k \<longrightarrow> branch_of w j \<noteq> CatchBlockRaises"
    using ih nr by (auto simp: le_Suc_eq)
  ultimately show ?case by blast
qed

lemma after_iterations_complete:
  "(\<forall>j. 1 \<le> j \<and> j \<le> k \<longrightarrow> branch_of w j \<noteq> CatchBlockRaises) \<Longrightarrow>
   after_iterations w a n k =
     Inr (Suc k, tallies w (fst (snd (initial_state n))) [1..<Suc k],
          ConsoleLog (StartingLine n) # concat (map (iteration_effects w a n) [1..<Suc k]))"
proof (induction k)
  case 0
  show ?case by (simp add: initial_state_def tallies_def)
next
  case (Suc k)
  then have "branch_of w (Suc k) \<noteq> CatchBlockRaises" by simp
  then show ?case
    using Suc by (simp add: loop_body_eq tallies_def)
qed

lemma send_loop_passes:
  "k \<le> n \<Longrightarrow> after_iterations w a n k = Inr s \<Longrightarrow>
   send_loop w a n s = send_loop w a n (initial_state n)"
proof (induction k arbitrary: s)
  case 0
  then show ?case by simp
next
  case (Suc k)
  from Suc.prems(2) obtain s0 where s0: "after_iterations w a n k = Inr s0"
    and body: "loop_body w a n s0 = Inr s"
    by (auto split: sum.splits)
  obtain r0 out0 where s0_eq: "s0 = (Suc k, r0, out0)"
    using after_iterations_Inr [OF s0] by blast
  have "send_loop w a n s0 = send_loop w a n s"
    using Suc.prems(1) body unfolding s0_eq by simp
  moreover have "send_loop w a n s0 = send_loop w a n (initial_state n)"
    using Suc.IH [OF _ s0] Suc.prems(1) by simp
  ultimately show ?case by simp
qed

lemma send_loop_raised:
  "k \<le> n \<Longrightarrow> after_iterations w a n k = Inl t \<Longrightarrow> send_loop w a n (initial_state n) = Inl t"
proof (induction k)
  case 0
  then show ?case by simp
next
  case (Suc k)
  show ?case
  proof (cases "after_iterations w a n k")
    case (Inl t')
    then show ?thesis
      using Suc by simp
  next
    case (Inr s0)
    then have body: "loop_body w a n s0 = Inl t"
      using Suc.prems(2) by simp
    obtain r0 out0 where s0_eq: "s0 = (Suc k, r0, out0)"
      using after_iterations_Inr [OF Inr] by blast
    have "send_loop w a n s0 = Inl t"
      using Suc.prems(1) body unfolding s0_eq by simp
    moreover have "send_loop w a n s0 = send_loop w a n (initial_state n)"
      using send_loop_passes [OF _ Inr] Suc.prems(1) by simp
    ultimately show ?thesis by simp
  qed
qed

lemma send_loop_initial: "send_loop w a n (initial_state n) = after_iterations w a n n"
proof (cases "after_iterations w a n n")
  case (Inl t)
  then show ?thesis
    using send_loop_raised [of n n w a t] by simp
next
  case (Inr s)
  obtain r out where s_eq: "s = (Suc n, r, out)"
    using after_iterations_Inr [OF Inr] by blast
  have "send_loop w a n s = Inr s"
    unfolding s_eq by simp
  then show ?thesis
    using send_loop_passes [OF _ Inr] Inr by simp
qed

lemma run_sends_eq:
  "run_sends w a n =
     (case after_iterations w a n n of
        Inl t \<Rightarrow> Inl t
      | Inr (i, r, out) \<Rightarrow> Inr (r, out @ report r))"
  using send_loop_initial [of w a n] by (simp add: run_sends_def initial_state_def)

lemma run_sends_Inr:
  assumes "run_sends w a n = Inr (r, out)"
  shows "r = tallies w \<lparr>total = n, successful = 0, failed = 0, blockOutOfRangeErrors = 0,
                         otherErrors = 0\<rparr> [1..<Suc n]"
    and "out = ConsoleLog (StartingLine n) # concat (map (iteration_effects w a n) [1..<Suc n])
                 @ report r"
    and "\<forall>j. 1 \<le> j \<and> j \<le> n \<longrightarrow> branch_of w j \<noteq> CatchBlockRaises"
proof -
  from assms obtain s where s: "after_iterations w a n n = Inr s"
    unfolding run_sends_eq by (auto split: sum.splits)
  note f = after_iterations_Inr [OF s]
  show "r = tallies w \<lparr>total = n, successful = 0, failed = 0, blockOutOfRangeErrors = 0,
                         otherErrors = 0\<rparr> [1..<Suc n]"
    using assms s f unfolding run_sends_eq by (auto simp: initial_state_def)
  show "out = ConsoleLog (StartingLine n) # concat (map (iteration_effects w a n) [1..<Suc n])
                 @ report r"
    using assms s f unfolding run_sends_eq by (auto simp: initial_state_def)
  show "\<forall>j. 1 \<le> j \<and> j \<le> n \<longrightarrow> branch_of w j \<noteq> CatchBlockRaises"
    using f by blast
qed

lemma run_sends_complete:
  assumes "\<forall>j. 1 \<le> j \<and> j \<le> n \<longrightarrow> branch_of w j \<noteq> CatchBlockRaises"
  shows "\<exists>r out. run_sends w a n = Inr (r, out)"
  using after_iterations_complete [OF assms, of a n] by (simp add: run_sends_eq)

lemma count_branch_0: "count_branch w b 0 = 0"
  by (simp add: count_branch_def)

lemma count_branch_Suc:
  "count_branch w b (Suc k) = count_branch w b k + (if branch_of w (Suc k) = b then 1 else 0)"
  by (simp add: count_branch_def)

lemma count_branch_none:
  "(\<forall>j. 1 \<le> j \<and> j \<le> k \<longrightarrow> branch_of w j \<noteq> b) \<Longrightarrow> count_branch w b k = 0"
  by (induction k) (simp_all add: count_branch_0 count_branch_Suc)

lemma tallies_counts:
  "total (tallies w r [1..<Suc k]) = total r \<and>
   successful (tallies w r [1..<Suc k]) = successful r + count_branch w ReceiptSuccess k \<and>
   failed (tallies w r [1..<Suc k]) =
     failed r + count_branch w ReceiptNotSuccess k + count_branch w CaughtBlockOutOfRange k
       + count_branch w CaughtOther k + count_branch w CatchBlockRaises k \<and>
   blockOutOfRangeErrors (tallies w r [1..<Suc k]) =
     blockOutOfRangeErrors r + count_branch w CaughtBlockOutOfRange k \<and>
   otherErrors (tallies w r [1..<Suc k]) = otherErrors r + count_branch w CaughtOther k"
proof (induction k)
  case 0
  show ?case by (simp add: tallies_def count_branch_0)
next
  case (Suc k)
  have step: "tallies w r [1..<Suc (Suc k)] = tally (branch_of w (Suc k)) (tallies w r [1..<Suc k])"
    using tallies_snoc [of w r "[1..<Suc k]" "Suc k"] by simp
  show ?case
    unfolding step using Suc
    by (cases "branch_of w (Suc k)") (simp_all add: count_branch_Suc)
qed

lemma count_branch_sum:
  "count_branch w ReceiptSuccess k + count_branch w ReceiptNotSuccess k
     + count_branch w CaughtBlockOutOfRange k + count_branch w CaughtOther k
     + count_branch w CatchBlockRaises k = k"
proof (induction k)
  case 0
  show ?case by (simp add: count_branch_0)
next
  case (Suc k)
  then show ?case
    by (cases "branch_of w (Suc k)") (simp_all add: count_branch_Suc)
qed



lemma run_sends_counts:
  assumes "run_sends w a n = Inr (r, out)"
  shows "total r = n \<and>
   successful r = count_branch w ReceiptSuccess n \<and>
   failed r = count_branch w ReceiptNotSuccess n + count_branch w CaughtBlockOutOfRange n
       + count_branch w CaughtOther n \<and>
   blockOutOfRangeErrors r = count_branch w CaughtBlockOutOfRange n \<and>
   otherErrors r = count_branch w CaughtOther n \<and>
   count_branch w CatchBlockRaises n = 0"
proof -
  have z: "count_branch w CatchBlockRaises n = 0"
    using run_sends_Inr(3) [OF assms] by (rule count_branch_none)
  show ?thesis
    unfolding run_sends_Inr(1) [OF assms]
    using tallies_counts [of w "\<lparr>total = n, successful = 0, failed = 0,
      blockOutOfRangeErrors = 0, otherErrors = 0\<rparr>" n] z
    by simp
qed

lemma tally_keeps_bound:
  "blockOutOfRangeErrors r + otherErrors r \<le> failed r \<Longrightarrow>
   blockOutOfRangeErrors (tally b r) + otherErrors (tally b r) \<le> failed (tally b r)"
  by (cases b) simp_all

section \<open>Lemmas on the effects of a run\<close>













section \<open>Lemmas on interleavings\<close>









section \<open>The summary of a run\<close>

text \<open>
  C1. In the final summary of a run of \<open>n\<close> iterations, \<open>successful + failed\<close> equals \<open>total\<close>,
  and \<open>blockOutOfRangeErrors + otherErrors\<close> plus the number of iterations whose receipt had
  a status other than success equals \<open>failed\<close>, whichever way each iteration went: the two
  error counters count caught errors only.
\<close>
theorem final_summary_tally:
  assumes "summary_of (run_sends w a n) = Some r"
  shows "successful r + failed r = total r \<and>
         blockOutOfRangeErrors r + otherErrors r + count_branch w ReceiptNotSuccess n = failed r"
proof -
  from assms obtain out where "run_sends w a n = Inr (r, out)"
    by (cases "run_sends w a n") auto
  then show ?thesis
    using run_sends_counts [of w a n r out] count_branch_sum [of w n] by simp
qed

theorem final_summary_tally_witness:
  "summary_of (run_sends reverting_world alice 3) =
     Some \<lparr>total = 3, successful = 0, failed = 3, blockOutOfRangeErrors = 0, otherErrors = 0\<rparr> \<and>
   count_branch reverting_world ReceiptNotSuccess 3 = 3"
proof -
  have s: "summary_of (run_sends reverting_world alice 3) =
     Some \<lparr>total = 3, successful = 0, failed = 3, blockOutOfRangeErrors = 0, otherErrors = 0\<rparr>"
    by code_simp
  show ?thesis
    using final_summary_tally [OF s] s by simp
qed

theorem final_summary_breakdown_counterexample:
  "summary_of (run_sends reverting_world alice 1) =
     Some \<lparr>total = 1, successful = 0, failed = 1, blockOutOfRangeErrors = 0, otherErrors = 0\<rparr> \<and>
   blockOutOfRangeErrors
       \<lparr>total = 1, successful = 0, failed = 1, blockOutOfRangeErrors = 0, otherErrors = 0\<rparr>
     + otherErrors
         \<lparr>total = 1, successful = 0, failed = 1, blockOutOfRangeErrors = 0, otherErrors = 0\<rparr>
     \<noteq> failed
         \<lparr>total = 1, successful = 0, failed = 1, blockOutOfRangeErrors = 0, otherErrors = 0\<rparr>"
  by code_simp

section \<open>Classifying a caught error\<close>

text \<open>
  C2. When an error has a message that is a string containing "block is out of range" in
  any letter case, or details whose stringification contains "block is out of range" in any
  letter case or contains "-32019", and the \<open>catch\<close> block can compute its two strings (the
  message is absent or a string, the details are absent or JSON data), then the \<open>catch\<close>
  block adds one to \<open>failed\<close> and to \<open>blockOutOfRangeErrors\<close>, leaves \<open>otherErrors\<close> alone and
  prints the block-out-of-range line and the error; and an iteration in which the
  submission or the wait raises this error prints and requests what came before, then
  these two lines, and goes on to the next iteration. The message is not searched for
  "-32019".
\<close>
theorem block_out_of_range_classified:
  assumes "message e \<noteq> Some NotText" and "details e \<noteq> Some Unserialisable"
    and "(\<exists>m. message e = Some (Text m) \<and> contains_any_case m ''block is out of range'') \<or>
         (\<exists>d. details e = Some (Data d) \<and>
            (contains_any_case (JSON_stringify d) ''block is out of range'' \<or>
             includes_str (JSON_stringify d) ''-32019''))"
  shows "catch_block n i e r =
           Inr (r\<lparr>failed := failed r + 1, blockOutOfRangeErrors := blockOutOfRangeErrors r + 1\<rparr>,
                [ConsoleLog (FailedBlockOutOfRangeLine i n),
                 ConsoleError (ErrorDetailsLine i n e)]) \<and>
         (sendTransaction w i = Inl e \<longrightarrow>
            loop_body w a n (i, r, out) =
              Inr (Suc i,
                   r\<lparr>failed := failed r + 1,
                     blockOutOfRangeErrors := blockOutOfRangeErrors r + 1\<rparr>,
                   out @ [ConsoleLog (SendingLine i n), Request (SendTransaction a transferValue),
                          ConsoleLog (FailedBlockOutOfRangeLine i n),
                          ConsoleError (ErrorDetailsLine i n e)]
                     @ (if i < n then [SetTimeout 500] else []))) \<and>
         (\<forall>h. sendTransaction w i = Inr h \<and> waitForTransactionReceipt w i h = Inl e \<longrightarrow>
            loop_body w a n (i, r, out) =
              Inr (Suc i,
                   r\<lparr>failed := failed r + 1,
                     blockOutOfRangeErrors := blockOutOfRangeErrors r + 1\<rparr>,
                   out @ [ConsoleLog (SendingLine i n), Request (SendTransaction a transferValue),
                          ConsoleLog (WaitingLine i n h), Request (WaitForTransactionReceipt h),
                          ConsoleLog (FailedBlockOutOfRangeLine i n),
                          ConsoleError (ErrorDetailsLine i n e)]
                     @ (if i < n then [SetTimeout 500] else [])))"
proof -
  obtain em ed where em: "errorMessage e = Some em" and ed: "errorDetails e = Some ed"
    using assms(1,2) classifiable_iff [of e] by (auto simp: classifiable_def)
  have "isBlockOutOfRange em ed"
    using assms(3)
  proof (elim disjE exE conjE)
    fix m
    assume "message e = Some (Text m)" and c: "contains_any_case m ''block is out of range''"
    then have "em = toLowerCase m"
      using em by (simp add: errorMessage_def)
    then show ?thesis
      using contains_lower_block [OF c] by (simp add: isBlockOutOfRange_def)
  next
    fix d
    assume d: "details e = Some (Data d)"
      and c: "contains_any_case (JSON_stringify d) ''block is out of range''"
    have "\<not> falsy d" using c falsy_no_block by blast
    then have "ed = toLowerCase (JSON_stringify d)"
      using ed d by (simp add: errorDetails_def)
    then show ?thesis
      using contains_lower_block [OF c] by (simp add: isBlockOutOfRange_def)
  next
    fix d
    assume d: "details e = Some (Data d)"
      and c: "includes_str (JSON_stringify d) ''-32019''"
    have "\<not> falsy d" using c falsy_no_code by blast
    then have "ed = toLowerCase (JSON_stringify d)"
      using ed d by (simp add: errorDetails_def)
    then show ?thesis
      using includes_lower_code [OF c] by (simp add: isBlockOutOfRange_def)
  qed
  then have cb: "catch_block n i e r =
           Inr (r\<lparr>failed := failed r + 1, blockOutOfRangeErrors := blockOutOfRangeErrors r + 1\<rparr>,
                [ConsoleLog (FailedBlockOutOfRangeLine i n),
                 ConsoleError (ErrorDetailsLine i n e)])"
    using em ed by (simp add: catch_block_def)
  show ?thesis
    using cb by (simp add: loop_body_def try_block_def)
qed

theorem block_out_of_range_classified_witness:
  "message upper_case_error = Some (Text ''Block Is Out Of Range'') \<and>
   details upper_case_error = None \<and>
   contains_any_case ''Block Is Out Of Range'' ''block is out of range'' \<and>
   sendTransaction (failing_world upper_case_error) 1 = Inl upper_case_error \<and>
   loop_body (failing_world upper_case_error) alice 1 (1, no_results, []) =
     Inr (Suc 1,
          no_results\<lparr>failed := failed no_results + 1,
                      blockOutOfRangeErrors := blockOutOfRangeErrors no_results + 1\<rparr>,
          [ConsoleLog (SendingLine 1 1), Request (SendTransaction alice transferValue),
           ConsoleLog (FailedBlockOutOfRangeLine 1 1),
           ConsoleError (ErrorDetailsLine 1 1 upper_case_error)]) \<and>
   sendTransaction scripted_error_world 2 = Inr ''0x8a16'' \<and>
   waitForTransactionReceipt scripted_error_world 2 ''0x8a16'' = Inl out_of_range_error \<and>
   loop_body scripted_error_world alice 4 (2, no_results, []) =
     Inr (Suc 2,
          no_results\<lparr>failed := failed no_results + 1,
                      blockOutOfRangeErrors := blockOutOfRangeErrors no_results + 1\<rparr>,
          [ConsoleLog (SendingLine 2 4), Request (SendTransaction alice transferValue),
           ConsoleLog (WaitingLine 2 4 ''0x8a16''), Request (WaitForTransactionReceipt ''0x8a16''),
           ConsoleLog (FailedBlockOutOfRangeLine 2 4),
           ConsoleError (ErrorDetailsLine 2 4 out_of_range_error), SetTimeout 500])"
proof -
  have c: "sendTransaction (failing_world upper_case_error) 1 = Inl upper_case_error"
    by (simp add: failing_world_def)
  have m: "message upper_case_error = Some (Text ''Block Is Out Of Range'')"
    by (simp add: upper_case_error_def)
  have d: "details upper_case_error = None"
    by (simp add: upper_case_error_def)
  have s: "contains_any_case ''Block Is Out Of Range'' ''block is out of range''"
    by code_simp
  have h1: "message upper_case_error \<noteq> Some NotText"
    and h2: "details upper_case_error \<noteq> Some Unserialisable"
    and h3: "(\<exists>m. message upper_case_error = Some (Text m) \<and>
               contains_any_case m ''block is out of range'') \<or>
         (\<exists>d. details upper_case_error = Some (Data d) \<and>
            (contains_any_case (JSON_stringify d) ''block is out of range'' \<or>
             includes_str (JSON_stringify d) ''-32019''))"
    using m d s by simp_all
  have first: "loop_body (failing_world upper_case_error) alice 1 (1, no_results, []) =
     Inr (Suc 1,
          no_results\<lparr>failed := failed no_results + 1,
                      blockOutOfRangeErrors := blockOutOfRangeErrors no_results + 1\<rparr>,
          [ConsoleLog (SendingLine 1 1), Request (SendTransaction alice transferValue),
           ConsoleLog (FailedBlockOutOfRangeLine 1 1),
           ConsoleError (ErrorDetailsLine 1 1 upper_case_error)])"
    using block_out_of_range_classified
      [OF h1 h2 h3, of 1 1 no_results "failing_world upper_case_error" alice "[]"] c
    by simp
  have sw: "sendTransaction scripted_error_world 2 = Inr ''0x8a16''"
    by (simp add: scripted_error_world_def)
  have ww: "waitForTransactionReceipt scripted_error_world 2 ''0x8a16'' = Inl out_of_range_error"
    by (simp add: scripted_error_world_def)
  have dt: "details out_of_range_error =
      Some (Data (JObj [(''code'', JNum (- 32019)), (''message'', JStr ''block is out of range'')]))"
    by (simp add: out_of_range_error_def)
  have inc: "includes_str
      (JSON_stringify (JObj [(''code'', JNum (- 32019)),
                             (''message'', JStr ''block is out of range'')])) ''-32019''"
    by code_simp
  have g1: "message out_of_range_error \<noteq> Some NotText"
    and g2: "details out_of_range_error \<noteq> Some Unserialisable"
    by (simp_all add: out_of_range_error_def)
  have g3: "(\<exists>m. message out_of_range_error = Some (Text m) \<and>
               contains_any_case m ''block is out of range'') \<or>
         (\<exists>d. details out_of_range_error = Some (Data d) \<and>
            (contains_any_case (JSON_stringify d) ''block is out of range'' \<or>
             includes_str (JSON_stringify d) ''-32019''))"
    using dt inc by simp
  have second: "loop_body scripted_error_world alice 4 (2, no_results, []) =
     Inr (Suc 2,
          no_results\<lparr>failed := failed no_results + 1,
                      blockOutOfRangeErrors := blockOutOfRangeErrors no_results + 1\<rparr>,
          [ConsoleLog (SendingLine 2 4), Request (SendTransaction alice transferValue),
           ConsoleLog (WaitingLine 2 4 ''0x8a16''), Request (WaitForTransactionReceipt ''0x8a16''),
           ConsoleLog (FailedBlockOutOfRangeLine 2 4),
           ConsoleError (ErrorDetailsLine 2 4 out_of_range_error), SetTimeout 500])"
    using block_out_of_range_classified
      [OF g1 g2 g3, of 4 2 no_results scripted_error_world alice "[]"] sw ww
    by simp
  show ?thesis
    using m d s c first sw ww second by simp
qed

theorem code_in_message_counterexample:
  "sendTransaction (failing_world code_in_message_error) 1 = Inl code_in_message_error \<and>
   message code_in_message_error = Some (Text ''RPC request failed with code -32019'') \<and>
   includes_str ''RPC request failed with code -32019'' ''-32019'' \<and>
   loop_body (failing_world code_in_message_error) alice 1 (1, no_results, []) =
     Inr (2, no_results\<lparr>failed := 1, otherErrors := 1\<rparr>,
          [ConsoleLog (SendingLine 1 1), Request (SendTransaction alice transferValue),
           ConsoleLog (FailedOtherLine 1 1 ''rpc request failed with code -32019''),
           ConsoleError (ErrorDetailsLine 1 1 code_in_message_error)])"
  by code_simp

section \<open>A receipt that does not say success\<close>

text \<open>
  C3. In an iteration whose receipt has a status other than success, the body
  of the loop adds one to \<open>failed\<close> and leaves \<open>successful\<close>, \<open>blockOutOfRangeErrors\<close> and
  \<open>otherErrors\<close> as they were, and after the two announcements and requests it prints the
  fixed line for a transaction whose status is not success: the iteration is a failure, not
  a success and not a block-out-of-range error, and it is in neither of the error counters.
\<close>
theorem non_success_receipt_tally:
  assumes "sendTransaction w i = Inr h"
    and "waitForTransactionReceipt w i h = Inr rc"
    and "status rc \<noteq> ''success''"
  shows "loop_body w a n (i, r, out) =
           Inr (Suc i, r\<lparr>failed := failed r + 1\<rparr>,
                out @ [ConsoleLog (SendingLine i n), Request (SendTransaction a transferValue),
                       ConsoleLog (WaitingLine i n h), Request (WaitForTransactionReceipt h),
                       ConsoleLog (FailedStatusLine i n)]
                    @ (if i < n then [SetTimeout 500] else []))"
  using assms by (simp add: loop_body_def try_block_def)

theorem non_success_receipt_tally_witness:
  "sendTransaction reverting_world 1 = Inr ''0x8a16'' \<and>
   waitForTransactionReceipt reverting_world 1 ''0x8a16'' = Inr \<lparr>status = ''reverted''\<rparr> \<and>
   status \<lparr>status = ''reverted''\<rparr> \<noteq> ''success'' \<and>
   loop_body reverting_world alice 2 (1, no_results, []) =
     Inr (Suc 1, no_results\<lparr>failed := failed no_results + 1\<rparr>,
          [ConsoleLog (SendingLine 1 2), Request (SendTransaction alice transferValue),
           ConsoleLog (WaitingLine 1 2 ''0x8a16''), Request (WaitForTransactionReceipt ''0x8a16''),
           ConsoleLog (FailedStatusLine 1 2), SetTimeout 500])"
proof -
  have s: "sendTransaction reverting_world 1 = Inr ''0x8a16''"
    by (simp add: reverting_world_def steady_world_def)
  have v: "waitForTransactionReceipt reverting_world 1 ''0x8a16'' = Inr \<lparr>status = ''reverted''\<rparr>"
    by (simp add: reverting_world_def)
  have t: "status \<lparr>status = ''reverted''\<rparr> \<noteq> ''success''"
    by simp
  show ?thesis
    using non_success_receipt_tally [OF s v t, of alice 2 no_results "[]"] s v t by simp
qed

theorem non_success_receipt_other_counterexample:
  "obtained reverting_world 1 = Some \<lparr>status = ''reverted''\<rparr> \<and>
   loop_body reverting_world alice 1 (1, no_results, []) =
     Inr (2, no_results\<lparr>failed := 1\<rparr>,
          [ConsoleLog (SendingLine 1 1), Request (SendTransaction alice transferValue),
           ConsoleLog (WaitingLine 1 1 ''0x8a16''), Request (WaitForTransactionReceipt ''0x8a16''),
           ConsoleLog (FailedStatusLine 1 1)]) \<and>
   otherErrors (no_results\<lparr>failed := 1\<rparr>) \<noteq> otherErrors no_results + 1"
  by code_simp

section \<open>A missing key\<close>

text \<open>
  C5. When the environment variable \<open>PRIVATE_KEY\<close> is absent, the process prints the error
  line and the usage line on the error stream and exits with status \<open>1\<close>; it has made no
  request to the network.
\<close>
theorem missing_private_key_exits:
  assumes "PRIVATE_KEY env = None"
  shows "exit_status (main env w) = 1 \<and>
         effects (main env w) = [ConsoleError PrivateKeyRequired, ConsoleError Usage] \<and>
         filter is_request (effects (main env w)) = []"
  using assms by (simp add: main_def)

theorem missing_private_key_exits_witness:
  "PRIVATE_KEY \<lparr>PRIVATE_KEY = None, RPC_URL = Some ''https://forno.celo.org''\<rparr> = None \<and>
   exit_status (main \<lparr>PRIVATE_KEY = None, RPC_URL = Some ''https://forno.celo.org''\<rparr> steady_world) = 1 \<and>
   effects (main \<lparr>PRIVATE_KEY = None, RPC_URL = Some ''https://forno.celo.org''\<rparr> steady_world) =
     [ConsoleError PrivateKeyRequired, ConsoleError Usage] \<and>
   filter is_request
     (effects (main \<lparr>PRIVATE_KEY = None, RPC_URL = Some ''https://forno.celo.org''\<rparr> steady_world)) = []"
  using missing_private_key_exits
    [of "\<lparr>PRIVATE_KEY = None, RPC_URL = Some ''https://forno.celo.org''\<rparr>" steady_world]
  by simp

section \<open>A scripted run\<close>

text \<open>
  C6. For a run of four iterations that go: receipt with success status, caught
  error that matches the block-out-of-range condition, caught error that does not match it,
  receipt with success status, the run reaches its summary and the summary is total 4,
  successful 2, failed 2, block-out-of-range errors 1, other errors 1.
\<close>
theorem scripted_summary:
  assumes "branch_of w 1 = ReceiptSuccess"
    and "branch_of w 2 = CaughtBlockOutOfRange"
    and "branch_of w 3 = CaughtOther"
    and "branch_of w 4 = ReceiptSuccess"
  shows "summary_of (run_sends w a 4) =
           Some \<lparr>total = 4, successful = 2, failed = 2, blockOutOfRangeErrors = 1,
                  otherErrors = 1\<rparr>"
proof -
  have u: "[1..<Suc 4] = [1, 2, 3, 4]"
    by (simp add: upt_rec)
  have "\<forall>j. 1 \<le> j \<and> j \<le> 4 \<longrightarrow> branch_of w j \<noteq> CatchBlockRaises"
  proof (intro allI impI)
    fix j :: nat
    assume "1 \<le> j \<and> j \<le> 4"
    then have "j = 1 \<or> j = 2 \<or> j = 3 \<or> j = 4" by arith
    then show "branch_of w j \<noteq> CatchBlockRaises"
      using assms by auto
  qed
  then obtain r out where ro: "run_sends w a 4 = Inr (r, out)"
    using run_sends_complete by blast
  have "r = \<lparr>total = 4, successful = 2, failed = 2, blockOutOfRangeErrors = 1, otherErrors = 1\<rparr>"
    unfolding run_sends_Inr(1) [OF ro] u using assms by (simp add: tallies_def)
  then show ?thesis
    using ro by simp
qed

theorem scripted_summary_witness:
  "branch_of scripted_error_world 1 = ReceiptSuccess \<and>
   branch_of scripted_error_world 2 = CaughtBlockOutOfRange \<and>
   branch_of scripted_error_world 3 = CaughtOther \<and>
   branch_of scripted_error_world 4 = ReceiptSuccess \<and>
   summary_of (run_sends scripted_error_world alice 4) =
     Some \<lparr>total = 4, successful = 2, failed = 2, blockOutOfRangeErrors = 1, otherErrors = 1\<rparr>"
proof -
  have b1: "branch_of scripted_error_world 1 = ReceiptSuccess" by code_simp
  have b2: "branch_of scripted_error_world 2 = CaughtBlockOutOfRange" by code_simp
  have b3: "branch_of scripted_error_world 3 = CaughtOther" by code_simp
  have b4: "branch_of scripted_error_world 4 = ReceiptSuccess" by code_simp
  show ?thesis
    using scripted_summary [OF b1 b2 b3 b4, of alice] b1 b2 b3 b4 by simp
qed

theorem scripted_summary_counterexample:
  "map (spec_outcome scripted_revert_world) [1, 2, 3, 4] =
     [Success, FailureBlockOutOfRange, FailureOther ''tx status not success'', Success] \<and>
   summary_of (run_sends scripted_revert_world alice 4) =
     Some \<lparr>total = 4, successful = 2, failed = 2, blockOutOfRangeErrors = 1, otherErrors = 0\<rparr> \<and>
   \<lparr>total = 4, successful = 2, failed = 2, blockOutOfRangeErrors = 1, otherErrors = 0\<rparr> \<noteq>
     \<lparr>total = 4, successful = 2, failed = 2, blockOutOfRangeErrors = 1, otherErrors = (1::nat)\<rparr>"
  by code_simp

section \<open>Every iteration runs\<close>




section \<open>The counters during the run\<close>

text \<open>
  C9. After each completed iteration of a run (\<open>k\<close> of the \<open>n\<close> are done), the counters satisfy
  \<open>blockOutOfRangeErrors + otherErrors \<le> failed\<close> and \<open>successful + failed = k\<close>, and the
  loop variable is \<open>k + 1\<close>; this is a state of the run: the loop goes on from it to the
  same end. One more pass through the body of the loop, whichever way it goes, keeps the
  inequality.
\<close>
theorem counters_invariant:
  assumes "k \<le> n" and "after_iterations w a n k = Inr (i, r, out)"
  shows "blockOutOfRangeErrors r + otherErrors r \<le> failed r \<and>
         successful r + failed r = k \<and>
         i = Suc k \<and>
         send_loop w a n (i, r, out) = send_loop w a n (initial_state n) \<and>
         (\<forall>i' r' out' s'. blockOutOfRangeErrors r' + otherErrors r' \<le> failed r' \<and>
            loop_body w a n (i', r', out') = Inr s' \<longrightarrow>
            blockOutOfRangeErrors (fst (snd s')) + otherErrors (fst (snd s'))
              \<le> failed (fst (snd s')))"
proof -
  let ?r0 = "fst (snd (initial_state n))"
  have zero: "successful ?r0 = 0" "failed ?r0 = 0" "blockOutOfRangeErrors ?r0 = 0"
    "otherErrors ?r0 = 0"
    by (simp_all add: initial_state_def)
  note f = after_iterations_Inr [OF assms(2)]
  have r: "r = tallies w ?r0 [1..<Suc k]" and i: "i = Suc k"
    using f by simp_all
  have z: "count_branch w CatchBlockRaises k = 0"
    using f by (intro count_branch_none) blast
  have "blockOutOfRangeErrors r + otherErrors r \<le> failed r"
    unfolding r using tallies_counts [of w ?r0 k] zero by simp
  moreover have "successful r + failed r = k"
    unfolding r using tallies_counts [of w ?r0 k] zero count_branch_sum [of w k] z by simp
  moreover have "send_loop w a n (i, r, out) = send_loop w a n (initial_state n)"
    using assms by (rule send_loop_passes)
  moreover have "\<forall>i' r' out' s'. blockOutOfRangeErrors r' + otherErrors r' \<le> failed r' \<and>
            loop_body w a n (i', r', out') = Inr s' \<longrightarrow>
            blockOutOfRangeErrors (fst (snd s')) + otherErrors (fst (snd s'))
              \<le> failed (fst (snd s'))"
    by (auto simp: loop_body_eq tally_keeps_bound split: if_splits)
  ultimately show ?thesis
    using i by blast
qed

theorem counters_invariant_witness:
  "(2::nat) \<le> 4 \<and>
   after_iterations scripted_revert_world alice 4 2 =
     Inr (3, \<lparr>total = 4, successful = 1, failed = 1, blockOutOfRangeErrors = 1, otherErrors = 0\<rparr>,
          [ConsoleLog (StartingLine 4),
           ConsoleLog (SendingLine 1 4), Request (SendTransaction alice transferValue),
           ConsoleLog (WaitingLine 1 4 ''0x8a16''), Request (WaitForTransactionReceipt ''0x8a16''),
           ConsoleLog (SuccessLine 1 4), SetTimeout 500,
           ConsoleLog (SendingLine 2 4), Request (SendTransaction alice transferValue),
           ConsoleLog (WaitingLine 2 4 ''0x8a16''), Request (WaitForTransactionReceipt ''0x8a16''),
           ConsoleLog (FailedBlockOutOfRangeLine 2 4),
           ConsoleError (ErrorDetailsLine 2 4 out_of_range_error), SetTimeout 500]) \<and>
   blockOutOfRangeErrors no_results + otherErrors no_results \<le> failed no_results \<and>
   loop_body scripted_revert_world alice 4 (3, no_results, []) =
     Inr (4, no_results\<lparr>failed := 1\<rparr>,
          [ConsoleLog (SendingLine 3 4), Request (SendTransaction alice transferValue),
           ConsoleLog (WaitingLine 3 4 ''0x8a16''), Request (WaitForTransactionReceipt ''0x8a16''),
           ConsoleLog (FailedStatusLine 3 4), SetTimeout 500]) \<and>
   blockOutOfRangeErrors (no_results\<lparr>failed := 1\<rparr>) + otherErrors (no_results\<lparr>failed := 1\<rparr>)
     \<le> failed (no_results\<lparr>failed := 1\<rparr>)"
proof -
  have le: "(2::nat) \<le> 4" by simp
  have s: "after_iterations scripted_revert_world alice 4 2 =
     Inr (3, \<lparr>total = 4, successful = 1, failed = 1, blockOutOfRangeErrors = 1, otherErrors = 0\<rparr>,
          [ConsoleLog (StartingLine 4),
           ConsoleLog (SendingLine 1 4), Request (SendTransaction alice transferValue),
           ConsoleLog (WaitingLine 1 4 ''0x8a16''), Request (WaitForTransactionReceipt ''0x8a16''),
           ConsoleLog (SuccessLine 1 4), SetTimeout 500,
           ConsoleLog (SendingLine 2 4), Request (SendTransaction alice transferValue),
           ConsoleLog (WaitingLine 2 4 ''0x8a16''), Request (WaitForTransactionReceipt ''0x8a16''),
           ConsoleLog (FailedBlockOutOfRangeLine 2 4),
           ConsoleError (ErrorDetailsLine 2 4 out_of_range_error), SetTimeout 500])"
    by code_simp
  have z: "blockOutOfRangeErrors no_results + otherErrors no_results \<le> failed no_results"
    by (simp add: no_results_def)
  have b: "loop_body scripted_revert_world alice 4 (3, no_results, []) =
     Inr (4, no_results\<lparr>failed := 1\<rparr>,
          [ConsoleLog (SendingLine 3 4), Request (SendTransaction alice transferValue),
           ConsoleLog (WaitingLine 3 4 ''0x8a16''), Request (WaitForTransactionReceipt ''0x8a16''),
           ConsoleLog (FailedStatusLine 3 4), SetTimeout 500])"
    by code_simp
  note keeps = counters_invariant
    [OF le s, THEN conjunct2, THEN conjunct2, THEN conjunct2, THEN conjunct2, rule_format]
  have "blockOutOfRangeErrors (no_results\<lparr>failed := 1\<rparr>) + otherErrors (no_results\<lparr>failed := 1\<rparr>)
     \<le> failed (no_results\<lparr>failed := 1\<rparr>)"
    using keeps [OF conjI [OF z b]] by simp
  then show ?thesis
    using le s z b by simp
qed

section \<open>The code anywhere in the details\<close>




section \<open>The lines of a request stay together\<close>




end
